theory Spec2Isabelle
  imports Main "HOL-Library.Char_ord" "HOL-Library.List_Lexorder"
begin

section \<open>Coach Tracker: the two tables and the operations on them\<close>

text \<open>
  The program is one Streamlit script (\<^verbatim>\<open>COACH_TRACKER.py\<close>) over an SQLite file
  with two tables. Every interaction re-runs the script from the top: it first executes
  the two \<^verbatim>\<open>CREATE TABLE IF NOT EXISTS\<close> statements, and then the handler of
  the button that was pressed. The model below follows the statements of the script.
  Python strings are modelled by their UTF-8 bytes (\<^typ>\<open>string\<close>), which is also what
  SQLite stores and compares for TEXT values. Failures of the storage engine itself
  (I/O errors, a full disk) are outside the model.
\<close>

subsection \<open>Rows and tables\<close>

text \<open>Lines 15-23: the columns of \<^verbatim>\<open>coaches\<close>.\<close>

record coach =
  coach_id :: nat
  coach_no :: string
  coach_type :: string
  date_in :: string
  current_shop :: string

text \<open>Lines 25-35: the columns of \<^verbatim>\<open>movements\<close>, in the order of the schema.\<close>

record movement =
  movement_id :: nat
  movement_coach_no :: string
  shop_in :: string
  shop_out :: string
  work_done :: string
  time_in :: string
  time_out :: string

text \<open>
  A table holds its rows in rowid order (the order in which \<^verbatim>\<open>SELECT *\<close> scans
  them) and, because the key is \<^verbatim>\<open>AUTOINCREMENT\<close>, the largest rowid it ever
  handed out (its entry in \<^verbatim>\<open>sqlite_sequence\<close>, 0 before the first insert).
\<close>

record 'r table =
  rows :: "'r list"
  sqlite_sequence :: nat

text \<open>The database file: a table is absent until it has been created.\<close>

record database =
  coaches :: "coach table option"
  movements :: "movement table option"

text \<open>\<^verbatim>\<open>sqlite3.OperationalError\<close>, raised by a statement on a missing table.\<close>

datatype error = OperationalError string

text \<open>What a handler shows: \<^verbatim>\<open>st.success\<close>, \<^verbatim>\<open>st.warning\<close>, \<^verbatim>\<open>st.info\<close>.\<close>

datatype message = Success string | Warning string | Info string

subsection \<open>Dates, timestamps and their text\<close>

text \<open>
  \<^verbatim>\<open>datetime.date\<close> and \<^verbatim>\<open>datetime.datetime\<close>. Python only builds dates with
  \<open>1 \<le> year \<le> 9999\<close>, a month in \<open>1..12\<close> and a day of that month.
\<close>

record date =
  year :: nat
  month :: nat
  day :: nat

record datetime = date +
  hour :: nat
  minute :: nat
  second :: nat
  microsecond :: nat

definition is_leap :: "nat \<Rightarrow> bool" where
  "is_leap y = (y mod 4 = 0 \<and> (y mod 100 \<noteq> 0 \<or> y mod 400 = 0))"

definition days_in_month :: "nat \<Rightarrow> nat \<Rightarrow> nat" where
  "days_in_month y m =
     (if m = 2 then (if is_leap y then 29 else 28)
      else if m = 4 \<or> m = 6 \<or> m = 9 \<or> m = 11 then 30 else 31)"

definition valid_date :: "'a date_scheme \<Rightarrow> bool" where
  "valid_date d =
     (1 \<le> year d \<and> year d \<le> 9999 \<and> 1 \<le> month d \<and> month d \<le> 12 \<and>
      1 \<le> day d \<and> day d \<le> days_in_month (year d) (month d))"

text \<open>Chronological order of two dates.\<close>

definition date_le :: "'a date_scheme \<Rightarrow> 'b date_scheme \<Rightarrow> bool" where
  "date_le a b =
     (year a < year b \<or>
      (year a = year b \<and> (month a < month b \<or> (month a = month b \<and> day a \<le> day b))))"

definition digit :: "nat \<Rightarrow> char" where
  "digit n = char_of (48 + n mod 10)"

text \<open>The formats \<^verbatim>\<open>%02d\<close> and \<^verbatim>\<open>%04d\<close> on numbers below 100 and 10000.\<close>

definition pad2 :: "nat \<Rightarrow> string" where
  "pad2 n = [digit (n div 10), digit n]"

definition pad4 :: "nat \<Rightarrow> string" where
  "pad4 n = [digit (n div 1000), digit (n div 100), digit (n div 10), digit n]"

text \<open>\<^verbatim>\<open>str(d)\<close> of a date is its ISO form \<^verbatim>\<open>YYYY-MM-DD\<close>.\<close>

definition str_date :: "'a date_scheme \<Rightarrow> string" where
  "str_date d = pad4 (year d) @ ''-'' @ pad2 (month d) @ ''-'' @ pad2 (day d)"

text \<open>\<^verbatim>\<open>t.strftime("%Y-%m-%d %H:%M:%S")\<close>: the microseconds are dropped.\<close>

definition strftime :: "datetime \<Rightarrow> string" where
  "strftime t =
     str_date t @ '' '' @ pad2 (hour t) @ '':'' @ pad2 (minute t) @ '':'' @ pad2 (second t)"

subsection \<open>The SQL statements\<close>

text \<open>\<^verbatim>\<open>CREATE TABLE IF NOT EXISTS\<close>: an existing table is left as it is.\<close>

definition create_table_if_not_exists :: "'r table option \<Rightarrow> 'r table option" where
  "create_table_if_not_exists t =
     (case t of None \<Rightarrow> Some \<lparr>rows = [], sqlite_sequence = 0\<rparr> | Some x \<Rightarrow> Some x)"

text \<open>Lines 15-36, run at the start of every run of the script.\<close>

definition ensure_schema :: "database \<Rightarrow> database" where
  "ensure_schema s =
     (let s1 = s\<lparr>coaches := create_table_if_not_exists (coaches s)\<rparr>;
          s2 = s1\<lparr>movements := create_table_if_not_exists (movements s1)\<rparr>
      in s2)"

text \<open>
  The rowid of an \<^verbatim>\<open>AUTOINCREMENT\<close> insert: one more than the largest rowid that
  is or ever was in the table.
\<close>

definition next_rowid :: "nat list \<Rightarrow> nat \<Rightarrow> nat" where
  "next_rowid ids sq = max sq (fold max ids 0) + 1"

text \<open>Line 115: \<^verbatim>\<open>INSERT INTO coaches (coach_no, coach_type, date_in, current_shop)\<close>.\<close>

definition insert_coach :: "string \<Rightarrow> string \<Rightarrow> string \<Rightarrow> string \<Rightarrow> coach table \<Rightarrow> coach table" where
  "insert_coach cn ct di sh t =
     (let i = next_rowid (map coach_id (rows t)) (sqlite_sequence t)
      in \<lparr>rows = rows t @
            [\<lparr>coach_id = i, coach_no = cn, coach_type = ct, date_in = di, current_shop = sh\<rparr>],
          sqlite_sequence = i\<rparr>)"

text \<open>Line 142: \<^verbatim>\<open>INSERT INTO movements (coach_no, shop_in, shop_out, work_done, time_in, time_out)\<close>.\<close>

definition insert_movement ::
  "string \<Rightarrow> string \<Rightarrow> string \<Rightarrow> string \<Rightarrow> string \<Rightarrow> string \<Rightarrow> movement table \<Rightarrow> movement table" where
  "insert_movement cn si so wd ti to t =
     (let i = next_rowid (map movement_id (rows t)) (sqlite_sequence t)
      in \<lparr>rows = rows t @
            [\<lparr>movement_id = i, movement_coach_no = cn, shop_in = si, shop_out = so,
              work_done = wd, time_in = ti, time_out = to\<rparr>],
          sqlite_sequence = i\<rparr>)"

text \<open>
  Line 144: \<^verbatim>\<open>UPDATE coaches SET current_shop=? WHERE coach_no=?\<close>, row by row.
  The number of rows the statement matched is what the cursor reports as its row count.
\<close>

fun update_current_shop :: "string \<Rightarrow> string \<Rightarrow> coach list \<Rightarrow> coach list" where
  "update_current_shop si cn [] = []"
| "update_current_shop si cn (c # cs) =
     (if coach_no c = cn then c\<lparr>current_shop := si\<rparr> else c) # update_current_shop si cn cs"

fun rowcount_current_shop :: "string \<Rightarrow> coach list \<Rightarrow> nat" where
  "rowcount_current_shop cn [] = 0"
| "rowcount_current_shop cn (c # cs) =
     (if coach_no c = cn then 1 else 0) + rowcount_current_shop cn cs"

subsection \<open>The operations\<close>

text \<open>U+2705, the check mark that opens both success messages, in UTF-8.\<close>

definition check_mark :: string where
  "check_mark = [CHR 0xE2, CHR 0x9C, CHR 0x85]"

text \<open>Lines 113-120: the handler of the button \<^verbatim>\<open>Add Coach\<close>.\<close>

definition add_coach ::
  "string \<Rightarrow> string \<Rightarrow> date \<Rightarrow> string \<Rightarrow> database \<Rightarrow> error + message \<times> database" where
  "add_coach cn ct d sh s =
     (if cn \<noteq> [] \<and> sh \<noteq> [] then
        (case coaches s of
           None \<Rightarrow> Inl (OperationalError ''no such table: coaches'')
         | Some t \<Rightarrow>
             Inr (Success (check_mark @ '' Coach '' @ cn @ '' added!''),
                  s\<lparr>coaches := Some (insert_coach cn ct (str_date d) sh t)\<rparr>))
      else Inr (Warning ''Please fill in all details.'', s))"

text \<open>Lines 72-73: \<^verbatim>\<open>SELECT * FROM coaches\<close>.\<close>

definition list_coaches :: "database \<Rightarrow> error + coach list" where
  "list_coaches s =
     (case coaches s of
        None \<Rightarrow> Inl (OperationalError ''no such table: coaches'')
      | Some t \<Rightarrow> Inr (rows t))"

text \<open>Lines 128-129: \<^verbatim>\<open>SELECT coach_no FROM coaches\<close>.\<close>

definition list_coach_numbers :: "database \<Rightarrow> error + string list" where
  "list_coach_numbers s =
     (case coaches s of
        None \<Rightarrow> Inl (OperationalError ''no such table: coaches'')
      | Some t \<Rightarrow> Inr (map coach_no (rows t)))"

text \<open>
  Lines 137-149: the handler of the button \<^verbatim>\<open>Update Movement\<close>. The clock is read
  twice (lines 139 and 140), so the handler takes both readings.
\<close>

definition record_movement ::
  "datetime \<Rightarrow> datetime \<Rightarrow> string \<Rightarrow> string \<Rightarrow> string \<Rightarrow> string \<Rightarrow> database
     \<Rightarrow> error + message \<times> database" where
  "record_movement now1 now2 cn so si wd s =
     (if si \<noteq> [] \<and> so \<noteq> [] then
        (let ti = strftime now1; to = strftime now2 in
         case movements s of
           None \<Rightarrow> Inl (OperationalError ''no such table: movements'')
         | Some mt \<Rightarrow>
             (case coaches s of
                None \<Rightarrow> Inl (OperationalError ''no such table: coaches'')
              | Some ct \<Rightarrow>
                  Inr (Success (check_mark @ '' Movement updated for Coach '' @ cn),
                       s\<lparr>movements := Some (insert_movement cn si so wd ti to mt),
                         coaches := Some (ct\<lparr>rows := update_current_shop si cn (rows ct)\<rparr>)\<rparr>)))
      else Inr (Warning ''Please fill in both shop fields.'', s))"

text \<open>
  Lines 128-151: the tab around that handler, with its button pressed. The coach number
  comes from a select box filled with the coach numbers of the table, so it is one of them
  (\<open>choice\<close> is the position picked); with no coach in the table the tab shows a notice
  and has neither the fields nor the button.
\<close>

definition update_movement_tab ::
  "nat \<Rightarrow> datetime \<Rightarrow> datetime \<Rightarrow> string \<Rightarrow> string \<Rightarrow> string \<Rightarrow> database
     \<Rightarrow> error + message \<times> database" where
  "update_movement_tab choice now1 now2 so si wd s =
     (case list_coach_numbers s of
        Inl e \<Rightarrow> Inl e
      | Inr coach_list \<Rightarrow>
          if coach_list \<noteq> [] then
            record_movement now1 now2 (coach_list ! (choice mod length coach_list)) so si wd s
          else Inr (Info ''No coaches available. Please add a coach first.'', s))"

text \<open>Lines 160-162: \<^verbatim>\<open>SELECT * FROM movements WHERE coach_no=?\<close>.\<close>

definition get_movements_for :: "string \<Rightarrow> database \<Rightarrow> error + movement list" where
  "get_movements_for cn s =
     (case movements s of
        None \<Rightarrow> Inl (OperationalError ''no such table: movements'')
      | Some t \<Rightarrow> Inr (filter (\<lambda>m. movement_coach_no m = cn) (rows t)))"

text \<open>
  Lines 189-197: the query of the Reports tab. \<^verbatim>\<open>BETWEEN\<close> compares the stored
  text with the two bounds byte by byte; the type condition is appended only when the
  filter is not \<^verbatim>\<open>All\<close>.
\<close>

definition filter_coaches :: "date \<Rightarrow> date \<Rightarrow> string \<Rightarrow> database \<Rightarrow> error + coach list" where
  "filter_coaches start_date end_date coach_type_filter s =
     (let lo = str_date start_date; hi = str_date end_date;
          between = (\<lambda>c. lo \<le> date_in c \<and> date_in c \<le> hi);
          query = (if coach_type_filter \<noteq> ''All''
                   then (\<lambda>c. between c \<and> coach_type c = coach_type_filter)
                   else between)
      in case coaches s of
           None \<Rightarrow> Inl (OperationalError ''no such table: coaches'')
         | Some t \<Rightarrow> Inr (filter query (rows t)))"

subsection \<open>The CSV export\<close>

text \<open>
  Lines 200 and 222: the fetched rows become a DataFrame with five named columns, and
  \<^verbatim>\<open>df.to_csv(index=False).encode("utf-8")\<close> writes it. pandas hands the header and
  every row to Python's \<^verbatim>\<open>csv.writer\<close> in its default dialect: fields separated by a
  comma, a field quoted only when it has to be, a quote inside a quoted field doubled, and
  every record ended by the line terminator, which pandas sets to the line feed.
\<close>

definition comma :: char where "comma = CHR '',''"
definition quotechar :: char where "quotechar = CHR 0x22"
definition newline :: char where "newline = CHR 0x0A"

text \<open>
  \<^verbatim>\<open>str\<close> of a non-negative integer: its decimal digits.
\<close>

fun show_nat :: "nat \<Rightarrow> string" where
  "show_nat n = (if n < 10 then [digit n] else show_nat (n div 10) @ [digit n])"

declare show_nat.simps [simp del]

text \<open>
  A field is quoted when it contains the delimiter, the quote character or a character of
  the line terminator, which here is the line feed alone. A carriage return does not make
  a field quoted: it is written as it is.
\<close>

definition needs_quotes :: "string \<Rightarrow> bool" where
  "needs_quotes f = list_ex (\<lambda>c. c = comma \<or> c = quotechar \<or> c = newline) f"

fun double_quotes :: "string \<Rightarrow> string" where
  "double_quotes [] = []"
| "double_quotes (c # cs) =
     (if c = quotechar then [quotechar, quotechar] else [c]) @ double_quotes cs"

definition write_field :: "string \<Rightarrow> string" where
  "write_field f =
     (if needs_quotes f then quotechar # double_quotes f @ [quotechar] else f)"

fun join_fields :: "string list \<Rightarrow> string" where
  "join_fields [] = []"
| "join_fields [f] = write_field f"
| "join_fields (f # g # fs) = write_field f @ comma # join_fields (g # fs)"

text \<open>
  One record. A record that consists of one empty field is written as a pair of quotes,
  so that it is not taken for an empty line.
\<close>

definition writerow :: "string list \<Rightarrow> string" where
  "writerow fs = (if fs = [[]] then [quotechar, quotechar] else join_fields fs) @ [newline]"

text \<open>
  Line 200: the column names, in the order of the table's columns.
\<close>

definition csv_header :: "string list" where
  "csv_header = [''ID'', ''Coach No'', ''Type'', ''Date In'', ''Current Shop'']"

definition coach_fields :: "coach \<Rightarrow> string list" where
  "coach_fields c = [show_nat (coach_id c), coach_no c, coach_type c, date_in c, current_shop c]"

text \<open>
  Line 222. The text is already a sequence of UTF-8 bytes in this model, so
  \<^verbatim>\<open>encode\<close> adds nothing.
\<close>

definition export_csv :: "coach list \<Rightarrow> string" where
  "export_csv df = writerow csv_header @ concat (map (\<lambda>c. writerow (coach_fields c)) df)"

text \<open>
  Lines 196-228: the CSV download exists only when the filter returned at least one row;
  otherwise the page shows a notice and offers nothing.
\<close>

definition download_csv :: "date \<Rightarrow> date \<Rightarrow> string \<Rightarrow> database \<Rightarrow> error + string option" where
  "download_csv start_date end_date coach_type_filter s =
     (case filter_coaches start_date end_date coach_type_filter s of
        Inl e \<Rightarrow> Inl e
      | Inr data \<Rightarrow> Inr (if data \<noteq> [] then Some (export_csv data) else None))"

text \<open>
  Lines 230-241: the same for the spreadsheet. The bytes that \<^verbatim>\<open>openpyxl\<close> writes are
  not modelled; the writer is a parameter.
\<close>

definition download_excel ::
  "(coach list \<Rightarrow> string) \<Rightarrow> date \<Rightarrow> date \<Rightarrow> string \<Rightarrow> database \<Rightarrow> error + string option" where
  "download_excel to_excel start_date end_date coach_type_filter s =
     (case filter_coaches start_date end_date coach_type_filter s of
        Inl e \<Rightarrow> Inl e
      | Inr data \<Rightarrow> Inr (if data \<noteq> [] then Some (to_excel data) else None))"

subsection \<open>Reading a CSV text back\<close>











subsection \<open>The operations of one run\<close>

text \<open>
  A run of the script performs the schema creation and then what the pressed button or
  the opened tab asks for; each of these steps is one of the operations below. The
  reading ones return the database as they found it.
\<close>

datatype operation =
    EnsureSchema
  | AddCoach string string date string
  | RecordMovement datetime datetime string string string string
  | ListCoaches
  | ListCoachNumbers
  | GetMovementsFor string
  | FilterCoaches date date string
  | ExportCsv date date string
  | ExportSpreadsheet date date string

datatype outcome =
    Done
  | Shown message
  | CoachRows "coach list"
  | CoachNumbers "string list"
  | MovementRows "movement list"
  | Download "string option"

definition reading :: "('a \<Rightarrow> outcome) \<Rightarrow> database \<Rightarrow> error + 'a \<Rightarrow> error + outcome \<times> database" where
  "reading wrap s r = (case r of Inl e \<Rightarrow> Inl e | Inr x \<Rightarrow> Inr (wrap x, s))"

definition writing :: "error + message \<times> database \<Rightarrow> error + outcome \<times> database" where
  "writing r = (case r of Inl e \<Rightarrow> Inl e | Inr (m, s') \<Rightarrow> Inr (Shown m, s'))"

fun perform ::
  "(coach list \<Rightarrow> string) \<Rightarrow> operation \<Rightarrow> database \<Rightarrow> error + outcome \<times> database" where
  "perform to_excel EnsureSchema s = Inr (Done, ensure_schema s)"
| "perform to_excel (AddCoach cn ct d sh) s = writing (add_coach cn ct d sh s)"
| "perform to_excel (RecordMovement now1 now2 cn so si wd) s =
     writing (record_movement now1 now2 cn so si wd s)"
| "perform to_excel ListCoaches s = reading CoachRows s (list_coaches s)"
| "perform to_excel ListCoachNumbers s = reading CoachNumbers s (list_coach_numbers s)"
| "perform to_excel (GetMovementsFor cn) s = reading MovementRows s (get_movements_for cn s)"
| "perform to_excel (FilterCoaches sd ed tf) s = reading CoachRows s (filter_coaches sd ed tf s)"
| "perform to_excel (ExportCsv sd ed tf) s = reading Download s (download_csv sd ed tf s)"
| "perform to_excel (ExportSpreadsheet sd ed tf) s =
     reading Download s (download_excel to_excel sd ed tf s)"

fun is_record_movement :: "operation \<Rightarrow> bool" where
  "is_record_movement (RecordMovement now1 now2 cn so si wd) = True"
| "is_record_movement op = False"

subsection \<open>Example data\<close>

text \<open>
  A database as the script leaves it after three coaches were added (two of them under
  the same coach number) and one movement was recorded.
\<close>

definition demo_coaches :: "coach list" where
  "demo_coaches =
     [\<lparr>coach_id = 1, coach_no = ''C100'', coach_type = ''AC'',
       date_in = ''2025-01-10'', current_shop = ''Shop B''\<rparr>,
      \<lparr>coach_id = 2, coach_no = ''C200'', coach_type = ''Sleeper'',
       date_in = ''2025-03-05'', current_shop = ''Shop A''\<rparr>,
      \<lparr>coach_id = 3, coach_no = ''C100'', coach_type = ''General'',
       date_in = ''2024-12-31'', current_shop = ''Shop C''\<rparr>]"

definition demo_movements :: "movement list" where
  "demo_movements =
     [\<lparr>movement_id = 1, movement_coach_no = ''C100'', shop_in = ''Shop B'',
       shop_out = ''Shop A'', work_done = ''Wheel check'',
       time_in = ''2025-01-11 08:30:00'', time_out = ''2025-01-11 08:30:00''\<rparr>]"

definition demo_db :: database where
  "demo_db =
     \<lparr>coaches = Some \<lparr>rows = demo_coaches, sqlite_sequence = 3\<rparr>,
      movements = Some \<lparr>rows = demo_movements, sqlite_sequence = 1\<rparr>\<rparr>"

definition demo_date :: date where
  "demo_date = \<lparr>year = 2025, month = 6, day = 30\<rparr>"


text \<open>
  The clock of \<^verbatim>\<open>datetime.now()\<close> only returns well-formed timestamps; two of them
  fall in the same second when they agree on every field but the microseconds.
\<close>

definition valid_datetime :: "datetime \<Rightarrow> bool" where
  "valid_datetime t =
     (valid_date t \<and> hour t < 24 \<and> minute t < 60 \<and> second t < 60 \<and> microsecond t < 1000000)"

definition same_second :: "datetime \<Rightarrow> datetime \<Rightarrow> bool" where
  "same_second a b =
     (year a = year b \<and> month a = month b \<and> day a = day b \<and>
      hour a = hour b \<and> minute a = minute b \<and> second a = second b)"

text \<open>Two readings of the clock taken nine microseconds apart, across a full hour.\<close>

definition demo_now1 :: datetime where
  "demo_now1 = \<lparr>year = 2025, month = 1, day = 10, hour = 9, minute = 59, second = 59,
                 microsecond = 999998\<rparr>"

definition demo_now2 :: datetime where
  "demo_now2 = \<lparr>year = 2025, month = 1, day = 10, hour = 10, minute = 0, second = 0,
                 microsecond = 7\<rparr>"

text \<open>The dates with which the three example coaches were entered, and a reporting period.\<close>

definition demo_entered :: "coach \<Rightarrow> date" where
  "demo_entered c =
     (if coach_id c = 1 then \<lparr>year = 2025, month = 1, day = 10\<rparr>
      else if coach_id c = 2 then \<lparr>year = 2025, month = 3, day = 5\<rparr>
      else \<lparr>year = 2024, month = 12, day = 31\<rparr>)"

definition demo_start :: date where
  "demo_start = \<lparr>year = 2025, month = 1, day = 1\<rparr>"

definition demo_end :: date where
  "demo_end = \<lparr>year = 2025, month = 12, day = 31\<rparr>"



definition demo_xlsx :: "coach list \<Rightarrow> string" where
  "demo_xlsx df = ''PK''"

section \<open>Properties\<close>

subsection \<open>Row identifiers\<close>

lemma fold_max_ge_init: "(a::nat) \<le> fold max ids a"
proof (induction ids arbitrary: a)
  case Nil
  show ?case by simp
next
  case (Cons x xs)
  have "a \<le> max x a" by simp
  also have "\<dots> \<le> fold max xs (max x a)" by (rule Cons.IH)
  finally show ?case by simp
qed

lemma fold_max_ge_elem: "x \<in> set ids \<Longrightarrow> (x::nat) \<le> fold max ids a"
proof (induction ids arbitrary: a)
  case Nil
  then show ?case by simp
next
  case (Cons y ys)
  show ?case
  proof (cases "x = y")
    case True
    have "x \<le> max y a" using True by simp
    also have "\<dots> \<le> fold max ys (max y a)" by (rule fold_max_ge_init)
    finally show ?thesis by simp
  next
    case False
    with Cons.prems have "x \<in> set ys" by simp
    then show ?thesis using Cons.IH by simp
  qed
qed

lemma next_rowid_greater: "x \<in> set ids \<Longrightarrow> x < next_rowid ids sq"
  using fold_max_ge_elem [of x ids 0] by (simp add: next_rowid_def)

lemma next_rowid_fresh: "next_rowid ids sq \<notin> set ids"
  using next_rowid_greater [of "next_rowid ids sq" ids sq] by auto

lemma next_rowid_above_sequence: "sq < next_rowid ids sq"
  by (simp add: next_rowid_def)

lemma length_update_current_shop [simp]:
  "length (update_current_shop si cn cs) = length cs"
  by (induction cs) simp_all

lemma update_current_shop_nth:
  "i < length cs \<Longrightarrow>
   update_current_shop si cn cs ! i =
     (if coach_no (cs ! i) = cn then (cs ! i)\<lparr>current_shop := si\<rparr> else cs ! i)"
proof (induction cs arbitrary: i)
  case Nil
  then show ?case by simp
next
  case (Cons c cs)
  then show ?case by (cases i) simp_all
qed

lemma update_current_shop_coach_no [simp]:
  "map coach_no (update_current_shop si cn cs) = map coach_no cs"
  by (induction cs) simp_all

lemma update_current_shop_matching:
  "c \<in> set (update_current_shop si cn cs) \<Longrightarrow> coach_no c = cn \<Longrightarrow> current_shop c = si"
proof (induction cs)
  case Nil
  then show ?case by simp
next
  case (Cons x xs)
  show ?case
  proof (cases "coach_no x = cn")
    case True
    with Cons show ?thesis by (cases "c = x\<lparr>current_shop := si\<rparr>") simp_all
  next
    case False
    with Cons show ?thesis by (cases "c = x") simp_all
  qed
qed

lemma rowcount_current_shop_zero_iff:
  "rowcount_current_shop cn cs = 0 \<longleftrightarrow> cn \<notin> coach_no ` set cs"
  by (induction cs) simp_all

lemma update_current_shop_no_match:
  "cn \<notin> coach_no ` set cs \<Longrightarrow> update_current_shop si cn cs = cs"
proof (induction cs)
  case Nil
  show ?case by simp
next
  case (Cons x xs)
  from Cons.prems have ne: "coach_no x \<noteq> cn" and rest: "cn \<notin> coach_no ` set xs"
    by force+
  from Cons.IH [OF rest] ne show ?case by simp
qed

subsection \<open>The text of dates and timestamps\<close>

text \<open>
  Zero-padded decimal text compares, byte by byte, as the numbers do. This is what makes
  the text comparison of \<^verbatim>\<open>BETWEEN\<close> a comparison of dates.
\<close>

lemma digit_less_iff: "digit a < digit b \<longleftrightarrow> a mod 10 < b mod 10"
proof -
  have "(48 + a mod 10) mod 256 = 48 + a mod 10" "(48 + b mod 10) mod 256 = 48 + b mod 10"
    by simp_all
  then show ?thesis
    by (simp add: digit_def less_char_def)
qed

lemma digit_eq_iff: "digit a = digit b \<longleftrightarrow> a mod 10 = b mod 10"
proof -
  have "of_char (digit a) = (48 + a mod 10 :: nat)" "of_char (digit b) = (48 + b mod 10 :: nat)"
    by (simp_all add: digit_def)
  then have "digit a = digit b \<longleftrightarrow> (48 + a mod 10 :: nat) = 48 + b mod 10"
    by (metis of_char_eq_iff)
  then show ?thesis by simp
qed

lemma lex_base10:
  fixes q1 r1 q2 r2 :: nat
  assumes "r1 < 10" and "r2 < 10"
  shows "(q1 < q2 \<or> q1 = q2 \<and> (r1 < r2 \<or> r1 = r2 \<and> P)) \<longleftrightarrow>
         (10 * q1 + r1 < 10 * q2 + r2 \<or> 10 * q1 + r1 = 10 * q2 + r2 \<and> P)"
  using assms by (cases P) (simp_all, linarith+)

lemma lex_base100:
  fixes q1 r1 q2 r2 :: nat
  assumes "r1 < 100" and "r2 < 100"
  shows "(q1 < q2 \<or> q1 = q2 \<and> (r1 < r2 \<or> r1 = r2 \<and> P)) \<longleftrightarrow>
         (100 * q1 + r1 < 100 * q2 + r2 \<or> 100 * q1 + r1 = 100 * q2 + r2 \<and> P)"
  using assms by (cases P) (simp_all, linarith+)

lemma two_digits_less:
  fixes a b :: nat
  shows "(a div 10 < b div 10 \<or>
          a div 10 = b div 10 \<and> (a mod 10 < b mod 10 \<or> a mod 10 = b mod 10 \<and> P))
         \<longleftrightarrow> a < b \<or> a = b \<and> P"
  using lex_base10 [of "a mod 10" "b mod 10" "a div 10" "b div 10" P] by simp

lemma two_pairs_less:
  fixes a b :: nat
  shows "(a div 100 < b div 100 \<or>
          a div 100 = b div 100 \<and> (a mod 100 < b mod 100 \<or> a mod 100 = b mod 100 \<and> P))
         \<longleftrightarrow> a < b \<or> a = b \<and> P"
  using lex_base100 [of "a mod 100" "b mod 100" "a div 100" "b div 100" P] by simp

lemma div_mod_eq_iff:
  fixes a b k :: nat
  shows "a div k = b div k \<and> a mod k = b mod k \<longleftrightarrow> a = b"
  by (metis div_mult_mod_eq)

lemma pad2_le_iff:
  assumes "a < 100" and "b < 100"
  shows "pad2 a @ xs \<le> pad2 b @ ys \<longleftrightarrow> a < b \<or> a = b \<and> xs \<le> ys"
proof -
  have small: "a div 10 mod 10 = a div 10" "b div 10 mod 10 = b div 10"
    using assms by simp_all
  have "pad2 a @ xs \<le> pad2 b @ ys \<longleftrightarrow>
      a div 10 < b div 10 \<or>
      a div 10 = b div 10 \<and> (a mod 10 < b mod 10 \<or> a mod 10 = b mod 10 \<and> xs \<le> ys)"
    by (simp add: pad2_def digit_less_iff digit_eq_iff small)
  then show ?thesis by (simp only: two_digits_less)
qed

lemma pad2_eq_iff:
  assumes "a < 100" and "b < 100"
  shows "pad2 a @ xs = pad2 b @ ys \<longleftrightarrow> a = b \<and> xs = ys"
proof -
  have small: "a div 10 mod 10 = a div 10" "b div 10 mod 10 = b div 10"
    using assms by simp_all
  have "pad2 a @ xs = pad2 b @ ys \<longleftrightarrow>
      (a div 10 = b div 10 \<and> a mod 10 = b mod 10) \<and> xs = ys"
    by (simp add: pad2_def digit_eq_iff small)
  then show ?thesis by (simp only: div_mod_eq_iff)
qed

lemma pad4_split: "pad4 n = pad2 (n div 100) @ pad2 (n mod 100)"
proof -
  have "n div 100 div 10 = n div 1000" by (simp add: div_mult2_eq)
  moreover have "n mod 100 div 10 mod 10 = n div 10 mod 10"
    using mod_mult2_eq [of n 10 10] by simp
  moreover have "n mod 100 mod 10 = n mod 10"
    by (simp add: mod_mod_cancel)
  ultimately show ?thesis
    by (simp add: pad4_def pad2_def digit_eq_iff)
qed

lemma pad4_le_iff:
  assumes "a < 10000" and "b < 10000"
  shows "pad4 a @ xs \<le> pad4 b @ ys \<longleftrightarrow> a < b \<or> a = b \<and> xs \<le> ys"
proof -
  have hi: "a div 100 < 100" "b div 100 < 100" using assms by simp_all
  have lo: "a mod 100 < 100" "b mod 100 < 100" by simp_all
  have "pad4 a @ xs \<le> pad4 b @ ys \<longleftrightarrow>
      a div 100 < b div 100 \<or>
      a div 100 = b div 100 \<and> (a mod 100 < b mod 100 \<or> a mod 100 = b mod 100 \<and> xs \<le> ys)"
    by (simp only: pad4_split append_assoc pad2_le_iff [OF hi] pad2_le_iff [OF lo])
  then show ?thesis by (simp only: two_pairs_less)
qed

lemma pad4_eq_iff:
  assumes "a < 10000" and "b < 10000"
  shows "pad4 a @ xs = pad4 b @ ys \<longleftrightarrow> a = b \<and> xs = ys"
proof -
  have hi: "a div 100 < 100" "b div 100 < 100" using assms by simp_all
  have lo: "a mod 100 < 100" "b mod 100 < 100" by simp_all
  have "pad4 a @ xs = pad4 b @ ys \<longleftrightarrow>
      (a div 100 = b div 100 \<and> a mod 100 = b mod 100) \<and> xs = ys"
    by (simp only: pad4_split append_assoc pad2_eq_iff [OF hi] pad2_eq_iff [OF lo] conj_assoc)
  then show ?thesis by (simp only: div_mod_eq_iff)
qed

lemma valid_date_bounds:
  assumes "valid_date d"
  shows "year d < 10000" and "month d < 100" and "day d < 100"
proof -
  have "days_in_month (year d) (month d) \<le> 31" by (simp add: days_in_month_def)
  with assms show "year d < 10000" and "month d < 100" and "day d < 100"
    by (simp_all add: valid_date_def)
qed

lemma str_date_le_iff:
  assumes "valid_date a" and "valid_date b"
  shows "str_date a \<le> str_date b \<longleftrightarrow> date_le a b"
proof -
  note ba = valid_date_bounds [OF assms(1)] and bb = valid_date_bounds [OF assms(2)]
  have "str_date a \<le> str_date b \<longleftrightarrow>
      year a < year b \<or> year a = year b \<and>
        (month a < month b \<or> month a = month b \<and> (day a < day b \<or> day a = day b))"
    using pad2_le_iff [OF ba(3) bb(3), of "[]" "[]"]
    by (simp add: str_date_def pad4_le_iff [OF ba(1) bb(1)] pad2_le_iff [OF ba(2) bb(2)])
  then show ?thesis by (auto simp: date_le_def)
qed

lemma strftime_eq_iff:
  assumes "valid_datetime a" and "valid_datetime b"
  shows "strftime a = strftime b \<longleftrightarrow> same_second a b"
proof -
  from assms have da: "valid_date a" and db: "valid_date b"
    by (simp_all add: valid_datetime_def)
  note ba = valid_date_bounds [OF da] and bb = valid_date_bounds [OF db]
  from assms have h: "hour a < 100" "hour b < 100" and m: "minute a < 100" "minute b < 100"
    and s: "second a < 100" "second b < 100"
    by (simp_all add: valid_datetime_def)
  show ?thesis
    using pad2_eq_iff [OF s, of "[]" "[]"]
    by (simp add: strftime_def str_date_def same_second_def
        pad4_eq_iff [OF ba(1) bb(1)] pad2_eq_iff [OF ba(2) bb(2)] pad2_eq_iff [OF ba(3) bb(3)]
        pad2_eq_iff [OF h] pad2_eq_iff [OF m])
qed

lemma digit_nth: "digit n = ''0123456789'' ! (n mod 10)"
proof -
  have c: "char_of (48 + k) = ''0123456789'' ! k" if "k < 10" for k :: nat
  proof -
    have v: "char_of (48 + 0 :: nat) = CHR ''0''" "char_of (48 + 1 :: nat) = CHR ''1''"
      "char_of (48 + 2 :: nat) = CHR ''2''" "char_of (48 + 3 :: nat) = CHR ''3''"
      "char_of (48 + 4 :: nat) = CHR ''4''" "char_of (48 + 5 :: nat) = CHR ''5''"
      "char_of (48 + 6 :: nat) = CHR ''6''" "char_of (48 + 7 :: nat) = CHR ''7''"
      "char_of (48 + 8 :: nat) = CHR ''8''" "char_of (48 + 9 :: nat) = CHR ''9''"
      by code_simp+
    from that have "k = 0 \<or> k = 1 \<or> k = 2 \<or> k = 3 \<or> k = 4 \<or> k = 5 \<or> k = 6 \<or> k = 7 \<or>
        k = 8 \<or> k = 9"
      by arith
    then show ?thesis by (elim disjE) (simp_all only: v, simp_all)
  qed
  show ?thesis unfolding digit_def by (rule c) simp
qed

subsection \<open>Facts about the example data\<close>

lemma demo_tables:
  "coaches demo_db = Some \<lparr>rows = demo_coaches, sqlite_sequence = 3\<rparr>"
  "movements demo_db = Some \<lparr>rows = demo_movements, sqlite_sequence = 1\<rparr>"
  by (simp_all add: demo_db_def)

lemma demo_dates_valid:
  "valid_date demo_start" "valid_date demo_end"
  by (simp_all add: valid_date_def demo_start_def demo_end_def days_in_month_def)

lemma demo_strftime:
  "strftime demo_now1 = ''2025-01-10 09:59:59''" "strftime demo_now2 = ''2025-01-10 10:00:00''"
  by (simp_all add: strftime_def str_date_def pad4_def pad2_def digit_nth demo_now1_def demo_now2_def)

lemma demo_entered_ok:
  "\<forall>c \<in> set demo_coaches. valid_date (demo_entered c) \<and> date_in c = str_date (demo_entered c)"
  by (simp add: demo_coaches_def demo_entered_def valid_date_def days_in_month_def
      str_date_def pad4_def pad2_def digit_nth)

lemma demo_clock_valid: "valid_datetime demo_now1" "valid_datetime demo_now2"
  by (simp_all add: valid_datetime_def valid_date_def days_in_month_def demo_now1_def demo_now2_def)

subsection \<open>Schema creation\<close>

text \<open>
  Claim C7. \<open>ensure_schema\<close> is idempotent: on a database where both tables exist it
  changes nothing, running it twice gives the same database as running it once, every
  table that existed keeps its rows and its sequence, and afterwards both tables exist.
\<close>

theorem ensure_schema_idempotent:
  "(coaches s \<noteq> None \<and> movements s \<noteq> None \<longrightarrow> ensure_schema s = s) \<and>
   ensure_schema (ensure_schema s) = ensure_schema s \<and>
   (\<forall>t. coaches s = Some t \<longrightarrow> coaches (ensure_schema s) = Some t) \<and>
   (\<forall>t. movements s = Some t \<longrightarrow> movements (ensure_schema s) = Some t) \<and>
   coaches (ensure_schema s) \<noteq> None \<and> movements (ensure_schema s) \<noteq> None"
  by (cases "coaches s"; cases "movements s")
     (simp_all add: ensure_schema_def create_table_if_not_exists_def)

theorem ensure_schema_idempotent_witness:
  "coaches demo_db \<noteq> None \<and> movements demo_db \<noteq> None \<and>
   ensure_schema demo_db = demo_db \<and>
   ensure_schema (ensure_schema demo_db) = ensure_schema demo_db \<and>
   coaches (ensure_schema demo_db) = Some \<lparr>rows = demo_coaches, sqlite_sequence = 3\<rparr> \<and>
   movements (ensure_schema demo_db) = Some \<lparr>rows = demo_movements, sqlite_sequence = 1\<rparr>"
  using ensure_schema_idempotent [of demo_db] by (simp add: demo_db_def)

subsection \<open>Adding a coach\<close>

text \<open>
  Claim C4. When the coach number and the shop are both non-empty (and the coaches table
  exists, as it does after \<open>ensure_schema\<close>), \<open>add_coach\<close> succeeds and \<open>list_coaches\<close>
  afterwards returns the rows it returned before followed by exactly one new row, which
  carries the arguments, \<open>current_shop\<close> equal to the shop, and a fresh id.
\<close>

theorem add_coach_one_more_row:
  assumes "cn \<noteq> []" and "sh \<noteq> []" and "coaches s = Some t"
  shows "\<exists>s' i. add_coach cn ct d sh s =
             Inr (Success (check_mark @ '' Coach '' @ cn @ '' added!''), s') \<and>
           list_coaches s = Inr (rows t) \<and>
           list_coaches s' =
             Inr (rows t @ [\<lparr>coach_id = i, coach_no = cn, coach_type = ct,
                             date_in = str_date d, current_shop = sh\<rparr>]) \<and>
           i \<notin> coach_id ` set (rows t) \<and>
           movements s' = movements s"
proof -
  let ?i = "next_rowid (map coach_id (rows t)) (sqlite_sequence t)"
  let ?s' = "s\<lparr>coaches := Some (insert_coach cn ct (str_date d) sh t)\<rparr>"
  have run: "add_coach cn ct d sh s =
      Inr (Success (check_mark @ '' Coach '' @ cn @ '' added!''), ?s')"
    using assms by (simp add: add_coach_def)
  have before: "list_coaches s = Inr (rows t)"
    using assms(3) by (simp add: list_coaches_def)
  have after: "list_coaches ?s' =
      Inr (rows t @ [\<lparr>coach_id = ?i, coach_no = cn, coach_type = ct,
                      date_in = str_date d, current_shop = sh\<rparr>])"
    by (simp add: list_coaches_def insert_coach_def Let_def)
  have fresh: "?i \<notin> coach_id ` set (rows t)"
    using next_rowid_fresh [of "map coach_id (rows t)" "sqlite_sequence t"] by simp
  have "movements ?s' = movements s" by simp
  with run before after fresh show ?thesis by blast
qed

theorem add_coach_one_more_row_witness:
  "''C300'' \<noteq> [] \<and> ''Shop D'' \<noteq> [] \<and>
   coaches demo_db = Some \<lparr>rows = demo_coaches, sqlite_sequence = 3\<rparr> \<and>
   (\<exists>s' i. add_coach ''C300'' ''AC'' demo_date ''Shop D'' demo_db =
             Inr (Success (check_mark @ '' Coach C300 added!''), s') \<and>
           list_coaches demo_db = Inr demo_coaches \<and>
           list_coaches s' =
             Inr (demo_coaches @ [\<lparr>coach_id = i, coach_no = ''C300'', coach_type = ''AC'',
                                   date_in = str_date demo_date, current_shop = ''Shop D''\<rparr>]) \<and>
           i \<notin> coach_id ` set demo_coaches \<and>
           movements s' = movements demo_db)"
proof -
  have h: "coaches demo_db = Some \<lparr>rows = demo_coaches, sqlite_sequence = 3\<rparr>"
    by (simp add: demo_db_def)
  have "''C300'' \<noteq> []" and "''Shop D'' \<noteq> []" by simp_all
  from add_coach_one_more_row [OF this h, of "''AC''" demo_date] h
  show ?thesis by simp
qed

text \<open>
  Claim C5. When the coach number or the shop is empty, \<open>add_coach\<close> reports the warning
  and returns the database it was given: nothing is written, so \<open>list_coaches\<close> returns
  what it returned before.
\<close>

theorem add_coach_rejects_empty:
  assumes "cn = [] \<or> sh = []"
  shows "add_coach cn ct d sh s = Inr (Warning ''Please fill in all details.'', s)"
  using assms by (auto simp: add_coach_def)

theorem add_coach_rejects_empty_witness:
  "(''C300'' = [] \<or> ([] :: string) = []) \<and>
   add_coach ''C300'' ''AC'' demo_date [] demo_db =
     Inr (Warning ''Please fill in all details.'', demo_db)"
  using add_coach_rejects_empty [of "''C300''" "[]" "''AC''" demo_date demo_db] by simp

subsection \<open>Recording a movement\<close>

lemma record_movement_run:
  assumes "si \<noteq> []" and "so \<noteq> []" and "coaches s = Some ct" and "movements s = Some mt"
  shows "record_movement now1 now2 cn so si wd s =
     Inr (Success (check_mark @ '' Movement updated for Coach '' @ cn),
          s\<lparr>movements := Some (insert_movement cn si so wd (strftime now1) (strftime now2) mt),
            coaches := Some (ct\<lparr>rows := update_current_shop si cn (rows ct)\<rparr>)\<rparr>)"
  using assms by (simp add: record_movement_def)

text \<open>
  Through the tab, the handler only ever runs with the number of a coach in the table.
\<close>

lemma update_movement_tab_known_coach:
  assumes "coaches s = Some ct" and "rows ct \<noteq> []"
  shows "\<exists>cn \<in> coach_no ` set (rows ct).
     update_movement_tab choice now1 now2 so si wd s = record_movement now1 now2 cn so si wd s"
proof -
  let ?l = "map coach_no (rows ct)"
  have "choice mod length ?l < length ?l" using assms(2) by simp
  then have "?l ! (choice mod length ?l) \<in> set ?l" by (rule nth_mem)
  then have "?l ! (choice mod length ?l) \<in> coach_no ` set (rows ct)" by simp
  moreover have "update_movement_tab choice now1 now2 so si wd s =
      record_movement now1 now2 (?l ! (choice mod length ?l)) so si wd s"
    using assms by (simp add: update_movement_tab_def list_coach_numbers_def)
  ultimately show ?thesis by blast
qed

text \<open>
  Claim C1. When both shop fields are non-empty and a coach with the given number exists,
  \<open>record_movement\<close> succeeds; afterwards a coach with that number still exists, every
  coach with that number has \<open>current_shop\<close> equal to the shop it moved into, and
  \<open>get_movements_for\<close> returns what it returned before followed by one new row with the
  given \<open>shop_in\<close>, \<open>shop_out\<close> and \<open>work_done\<close> and a fresh id.
\<close>

theorem record_movement_moves_coach:
  assumes "si \<noteq> []" and "so \<noteq> []" and "coaches s = Some ct" and "movements s = Some mt"
    and "cn \<in> coach_no ` set (rows ct)"
  shows "\<exists>s' ct' old i.
      record_movement now1 now2 cn so si wd s =
        Inr (Success (check_mark @ '' Movement updated for Coach '' @ cn), s') \<and>
      coaches s' = Some ct' \<and>
      cn \<in> coach_no ` set (rows ct') \<and>
      (\<forall>c \<in> set (rows ct'). coach_no c = cn \<longrightarrow> current_shop c = si) \<and>
      get_movements_for cn s = Inr old \<and>
      get_movements_for cn s' =
        Inr (old @ [\<lparr>movement_id = i, movement_coach_no = cn, shop_in = si, shop_out = so,
                      work_done = wd, time_in = strftime now1, time_out = strftime now2\<rparr>]) \<and>
      i \<notin> movement_id ` set (rows mt)"
proof -
  let ?i = "next_rowid (map movement_id (rows mt)) (sqlite_sequence mt)"
  let ?ct' = "ct\<lparr>rows := update_current_shop si cn (rows ct)\<rparr>"
  let ?s' = "s\<lparr>movements := Some (insert_movement cn si so wd (strftime now1) (strftime now2) mt),
               coaches := Some ?ct'\<rparr>"
  let ?old = "filter (\<lambda>m. movement_coach_no m = cn) (rows mt)"
  have run: "record_movement now1 now2 cn so si wd s =
      Inr (Success (check_mark @ '' Movement updated for Coach '' @ cn), ?s')"
    by (rule record_movement_run [OF assms(1-4)])
  have c: "coaches ?s' = Some ?ct'" by simp
  have "set (map coach_no (update_current_shop si cn (rows ct))) = set (map coach_no (rows ct))"
    by (simp only: update_current_shop_coach_no)
  then have "coach_no ` set (update_current_shop si cn (rows ct)) = coach_no ` set (rows ct)"
    by (simp only: set_map)
  then have still: "cn \<in> coach_no ` set (rows ?ct')"
    using assms(5) by simp
  have shop: "\<forall>c \<in> set (rows ?ct'). coach_no c = cn \<longrightarrow> current_shop c = si"
    using update_current_shop_matching [of _ si cn "rows ct"] by simp
  have before: "get_movements_for cn s = Inr ?old"
    using assms(4) by (simp add: get_movements_for_def)
  have after: "get_movements_for cn ?s' =
      Inr (?old @ [\<lparr>movement_id = ?i, movement_coach_no = cn, shop_in = si, shop_out = so,
                     work_done = wd, time_in = strftime now1, time_out = strftime now2\<rparr>])"
    by (simp add: get_movements_for_def insert_movement_def Let_def)
  have fresh: "?i \<notin> movement_id ` set (rows mt)"
    using next_rowid_fresh [of "map movement_id (rows mt)" "sqlite_sequence mt"] by simp
  from run c still shop before after fresh show ?thesis by blast
qed

theorem record_movement_moves_coach_witness:
  "''Shop D'' \<noteq> [] \<and> ''Shop B'' \<noteq> [] \<and>
   coaches demo_db = Some \<lparr>rows = demo_coaches, sqlite_sequence = 3\<rparr> \<and>
   movements demo_db = Some \<lparr>rows = demo_movements, sqlite_sequence = 1\<rparr> \<and>
   ''C100'' \<in> coach_no ` set demo_coaches \<and>
   (\<exists>s' ct' old i.
      record_movement demo_now1 demo_now2 ''C100'' ''Shop B'' ''Shop D'' ''Axle swap'' demo_db =
        Inr (Success (check_mark @ '' Movement updated for Coach C100''), s') \<and>
      coaches s' = Some ct' \<and>
      ''C100'' \<in> coach_no ` set (rows ct') \<and>
      (\<forall>c \<in> set (rows ct'). coach_no c = ''C100'' \<longrightarrow> current_shop c = ''Shop D'') \<and>
      get_movements_for ''C100'' demo_db = Inr old \<and>
      get_movements_for ''C100'' s' =
        Inr (old @ [\<lparr>movement_id = i, movement_coach_no = ''C100'', shop_in = ''Shop D'',
                      shop_out = ''Shop B'', work_done = ''Axle swap'',
                      time_in = strftime demo_now1, time_out = strftime demo_now2\<rparr>]) \<and>
      i \<notin> movement_id ` set demo_movements)"
proof -
  have h: "''Shop D'' \<noteq> []" "''Shop B'' \<noteq> []" by simp_all
  have m: "''C100'' \<in> coach_no ` set (rows \<lparr>rows = demo_coaches, sqlite_sequence = 3\<rparr>)"
    by (simp add: demo_coaches_def)
  from record_movement_moves_coach [OF h demo_tables m, of demo_now1 demo_now2 "''Axle swap''"]
    h demo_tables m
  show ?thesis by simp
qed

text \<open>
  Claim C2. When both shop fields are non-empty and no coach has the given number, the
  movement row is inserted all the same, the \<^verbatim>\<open>UPDATE\<close> matches zero rows and leaves the
  coaches table as it was, and the handler reports success, not an error. This is a
  property of the handler for any coach number it is given; \<open>update_movement_tab\<close> itself
  never gives it an unknown one.
\<close>

theorem record_movement_unknown_coach:
  assumes "si \<noteq> []" and "so \<noteq> []" and "coaches s = Some ct" and "movements s = Some mt"
    and "cn \<notin> coach_no ` set (rows ct)"
  shows "\<exists>s' i.
      record_movement now1 now2 cn so si wd s =
        Inr (Success (check_mark @ '' Movement updated for Coach '' @ cn), s') \<and>
      rowcount_current_shop cn (rows ct) = 0 \<and>
      coaches s' = coaches s \<and>
      movements s' =
        Some \<lparr>rows = rows mt @
                 [\<lparr>movement_id = i, movement_coach_no = cn, shop_in = si, shop_out = so,
                   work_done = wd, time_in = strftime now1, time_out = strftime now2\<rparr>],
               sqlite_sequence = i\<rparr> \<and>
      i \<notin> movement_id ` set (rows mt)"
proof -
  let ?i = "next_rowid (map movement_id (rows mt)) (sqlite_sequence mt)"
  let ?s' = "s\<lparr>movements := Some (insert_movement cn si so wd (strftime now1) (strftime now2) mt),
               coaches := Some (ct\<lparr>rows := update_current_shop si cn (rows ct)\<rparr>)\<rparr>"
  have run: "record_movement now1 now2 cn so si wd s =
      Inr (Success (check_mark @ '' Movement updated for Coach '' @ cn), ?s')"
    by (rule record_movement_run [OF assms(1-4)])
  have zero: "rowcount_current_shop cn (rows ct) = 0"
    using assms(5) by (simp add: rowcount_current_shop_zero_iff)
  have same: "coaches ?s' = coaches s"
    using assms(3) update_current_shop_no_match [OF assms(5), of si] by simp
  have ins: "movements ?s' =
      Some \<lparr>rows = rows mt @
               [\<lparr>movement_id = ?i, movement_coach_no = cn, shop_in = si, shop_out = so,
                 work_done = wd, time_in = strftime now1, time_out = strftime now2\<rparr>],
             sqlite_sequence = ?i\<rparr>"
    by (simp add: insert_movement_def Let_def)
  have fresh: "?i \<notin> movement_id ` set (rows mt)"
    using next_rowid_fresh [of "map movement_id (rows mt)" "sqlite_sequence mt"] by simp
  from run zero same ins fresh show ?thesis by blast
qed

theorem record_movement_unknown_coach_witness:
  "''Shop D'' \<noteq> [] \<and> ''Shop B'' \<noteq> [] \<and>
   coaches demo_db = Some \<lparr>rows = demo_coaches, sqlite_sequence = 3\<rparr> \<and>
   movements demo_db = Some \<lparr>rows = demo_movements, sqlite_sequence = 1\<rparr> \<and>
   ''C999'' \<notin> coach_no ` set demo_coaches \<and>
   (\<exists>s' i.
      record_movement demo_now1 demo_now2 ''C999'' ''Shop B'' ''Shop D'' ''Axle swap'' demo_db =
        Inr (Success (check_mark @ '' Movement updated for Coach C999''), s') \<and>
      rowcount_current_shop ''C999'' demo_coaches = 0 \<and>
      coaches s' = coaches demo_db \<and>
      movements s' =
        Some \<lparr>rows = demo_movements @
                 [\<lparr>movement_id = i, movement_coach_no = ''C999'', shop_in = ''Shop D'',
                   shop_out = ''Shop B'', work_done = ''Axle swap'',
                   time_in = strftime demo_now1, time_out = strftime demo_now2\<rparr>],
               sqlite_sequence = i\<rparr> \<and>
      i \<notin> movement_id ` set demo_movements)"
proof -
  have h: "''Shop D'' \<noteq> []" "''Shop B'' \<noteq> []" by simp_all
  have m: "''C999'' \<notin> coach_no ` set (rows \<lparr>rows = demo_coaches, sqlite_sequence = 3\<rparr>)"
    by (simp add: demo_coaches_def)
  from record_movement_unknown_coach [OF h demo_tables m, of demo_now1 demo_now2 "''Axle swap''"]
    h demo_tables m
  show ?thesis by simp
qed

text \<open>
  Claim C3, as stated, says that \<open>time_in\<close> and \<open>time_out\<close> of the inserted row are
  always equal. The handler reads the clock twice, once for each column, so the two texts
  differ whenever a new second begins between the two readings: here the first reading
  is 09:59:59.999998 and the second 10:00:00.000007.
\<close>

theorem record_movement_timestamps_counterexample:
  "record_movement demo_now1 demo_now2 ''C200'' ''Shop A'' ''Shop D'' ''Brake test'' demo_db =
     Inr (Success (check_mark @ '' Movement updated for Coach C200''),
          \<lparr>coaches = Some \<lparr>rows =
             [\<lparr>coach_id = 1, coach_no = ''C100'', coach_type = ''AC'',
               date_in = ''2025-01-10'', current_shop = ''Shop B''\<rparr>,
              \<lparr>coach_id = 2, coach_no = ''C200'', coach_type = ''Sleeper'',
               date_in = ''2025-03-05'', current_shop = ''Shop D''\<rparr>,
              \<lparr>coach_id = 3, coach_no = ''C100'', coach_type = ''General'',
               date_in = ''2024-12-31'', current_shop = ''Shop C''\<rparr>], sqlite_sequence = 3\<rparr>,
           movements = Some \<lparr>rows =
             [\<lparr>movement_id = 1, movement_coach_no = ''C100'', shop_in = ''Shop B'',
               shop_out = ''Shop A'', work_done = ''Wheel check'',
               time_in = ''2025-01-11 08:30:00'', time_out = ''2025-01-11 08:30:00''\<rparr>,
              \<lparr>movement_id = 2, movement_coach_no = ''C200'', shop_in = ''Shop D'',
               shop_out = ''Shop A'', work_done = ''Brake test'',
               time_in = ''2025-01-10 09:59:59'', time_out = ''2025-01-10 10:00:00''\<rparr>],
             sqlite_sequence = 2\<rparr>\<rparr>) \<and>
   ''2025-01-10 09:59:59'' \<noteq> ''2025-01-10 10:00:00''"
  by (simp add: record_movement_def demo_db_def demo_coaches_def demo_movements_def
      demo_strftime insert_movement_def next_rowid_def)

text \<open>
  Claim C3, amended. The inserted row has \<open>time_in\<close> equal to the text of the first
  reading of the clock and \<open>time_out\<close> equal to the text of the second reading; for
  well-formed readings the two are equal exactly when both readings fall in the same
  second.
\<close>

theorem record_movement_timestamps:
  assumes "si \<noteq> []" and "so \<noteq> []" and "coaches s = Some ct" and "movements s = Some mt"
  shows "\<exists>s' mt' m.
      record_movement now1 now2 cn so si wd s =
        Inr (Success (check_mark @ '' Movement updated for Coach '' @ cn), s') \<and>
      movements s' = Some mt' \<and> rows mt' = rows mt @ [m] \<and>
      time_in m = strftime now1 \<and> time_out m = strftime now2 \<and>
      (valid_datetime now1 \<and> valid_datetime now2 \<longrightarrow>
         (time_in m = time_out m \<longleftrightarrow> same_second now1 now2))"
proof -
  let ?i = "next_rowid (map movement_id (rows mt)) (sqlite_sequence mt)"
  let ?mt' = "insert_movement cn si so wd (strftime now1) (strftime now2) mt"
  let ?m = "\<lparr>movement_id = ?i, movement_coach_no = cn, shop_in = si, shop_out = so,
             work_done = wd, time_in = strftime now1, time_out = strftime now2\<rparr>"
  let ?s' = "s\<lparr>movements := Some ?mt',
               coaches := Some (ct\<lparr>rows := update_current_shop si cn (rows ct)\<rparr>)\<rparr>"
  have run: "record_movement now1 now2 cn so si wd s =
      Inr (Success (check_mark @ '' Movement updated for Coach '' @ cn), ?s')"
    by (rule record_movement_run [OF assms(1-4)])
  have m: "movements ?s' = Some ?mt'" by simp
  have r: "rows ?mt' = rows mt @ [?m]" by (simp add: insert_movement_def Let_def)
  have t: "time_in ?m = strftime now1" "time_out ?m = strftime now2" by simp_all
  have e: "valid_datetime now1 \<and> valid_datetime now2 \<longrightarrow>
      (time_in ?m = time_out ?m \<longleftrightarrow> same_second now1 now2)"
    using strftime_eq_iff [of now1 now2] by simp
  from run m r t e show ?thesis by blast
qed

theorem record_movement_timestamps_witness:
  "''Shop D'' \<noteq> [] \<and> ''Shop B'' \<noteq> [] \<and>
   coaches demo_db = Some \<lparr>rows = demo_coaches, sqlite_sequence = 3\<rparr> \<and>
   movements demo_db = Some \<lparr>rows = demo_movements, sqlite_sequence = 1\<rparr> \<and>
   valid_datetime demo_now1 \<and> valid_datetime demo_now2 \<and>
   (\<exists>s' mt' m.
      record_movement demo_now1 demo_now2 ''C100'' ''Shop B'' ''Shop D'' ''Axle swap'' demo_db =
        Inr (Success (check_mark @ '' Movement updated for Coach C100''), s') \<and>
      movements s' = Some mt' \<and> rows mt' = demo_movements @ [m] \<and>
      time_in m = strftime demo_now1 \<and> time_out m = strftime demo_now2 \<and>
      (time_in m = time_out m \<longleftrightarrow> same_second demo_now1 demo_now2))"
proof -
  have h: "''Shop D'' \<noteq> []" "''Shop B'' \<noteq> []" by simp_all
  from record_movement_timestamps [OF h demo_tables, of demo_now1 demo_now2 "''C100''" "''Axle swap''"]
    h demo_tables demo_clock_valid
  show ?thesis by simp
qed

text \<open>
  Claim C10. A successful \<open>record_movement\<close> keeps the number and the order of the coach
  rows and the table's sequence; in every row it keeps \<open>id\<close>, \<open>coach_no\<close>,
  \<open>coach_type\<close> and \<open>date_in\<close>; it sets \<open>current_shop\<close> to the new shop in every row
  with the given coach number (duplicates included) and leaves every other row as it was.
\<close>

theorem record_movement_frame:
  assumes "si \<noteq> []" and "so \<noteq> []" and "coaches s = Some ct" and "movements s = Some mt"
  shows "\<exists>s' ct'.
      record_movement now1 now2 cn so si wd s =
        Inr (Success (check_mark @ '' Movement updated for Coach '' @ cn), s') \<and>
      coaches s' = Some ct' \<and>
      length (rows ct') = length (rows ct) \<and>
      sqlite_sequence ct' = sqlite_sequence ct \<and>
      (\<forall>i < length (rows ct).
         coach_id (rows ct' ! i) = coach_id (rows ct ! i) \<and>
         coach_no (rows ct' ! i) = coach_no (rows ct ! i) \<and>
         coach_type (rows ct' ! i) = coach_type (rows ct ! i) \<and>
         date_in (rows ct' ! i) = date_in (rows ct ! i) \<and>
         (coach_no (rows ct ! i) = cn \<longrightarrow> current_shop (rows ct' ! i) = si) \<and>
         (coach_no (rows ct ! i) \<noteq> cn \<longrightarrow> rows ct' ! i = rows ct ! i))"
proof -
  let ?ct' = "ct\<lparr>rows := update_current_shop si cn (rows ct)\<rparr>"
  let ?s' = "s\<lparr>movements := Some (insert_movement cn si so wd (strftime now1) (strftime now2) mt),
               coaches := Some ?ct'\<rparr>"
  have run: "record_movement now1 now2 cn so si wd s =
      Inr (Success (check_mark @ '' Movement updated for Coach '' @ cn), ?s')"
    by (rule record_movement_run [OF assms(1-4)])
  have c: "coaches ?s' = Some ?ct'" by simp
  have l: "length (rows ?ct') = length (rows ct)" by simp
  have q: "sqlite_sequence ?ct' = sqlite_sequence ct" by simp
  have f: "\<forall>i < length (rows ct).
         coach_id (rows ?ct' ! i) = coach_id (rows ct ! i) \<and>
         coach_no (rows ?ct' ! i) = coach_no (rows ct ! i) \<and>
         coach_type (rows ?ct' ! i) = coach_type (rows ct ! i) \<and>
         date_in (rows ?ct' ! i) = date_in (rows ct ! i) \<and>
         (coach_no (rows ct ! i) = cn \<longrightarrow> current_shop (rows ?ct' ! i) = si) \<and>
         (coach_no (rows ct ! i) \<noteq> cn \<longrightarrow> rows ?ct' ! i = rows ct ! i)"
    by (simp add: update_current_shop_nth)
  from run c l q f show ?thesis by blast
qed

theorem record_movement_frame_witness:
  "''Shop D'' \<noteq> [] \<and> ''Shop B'' \<noteq> [] \<and>
   coaches demo_db = Some \<lparr>rows = demo_coaches, sqlite_sequence = 3\<rparr> \<and>
   movements demo_db = Some \<lparr>rows = demo_movements, sqlite_sequence = 1\<rparr> \<and>
   (\<exists>s' ct'.
      record_movement demo_now1 demo_now2 ''C100'' ''Shop B'' ''Shop D'' ''Axle swap'' demo_db =
        Inr (Success (check_mark @ '' Movement updated for Coach C100''), s') \<and>
      coaches s' = Some ct' \<and>
      length (rows ct') = length demo_coaches \<and>
      sqlite_sequence ct' = 3 \<and>
      (\<forall>i < length demo_coaches.
         coach_id (rows ct' ! i) = coach_id (demo_coaches ! i) \<and>
         coach_no (rows ct' ! i) = coach_no (demo_coaches ! i) \<and>
         coach_type (rows ct' ! i) = coach_type (demo_coaches ! i) \<and>
         date_in (rows ct' ! i) = date_in (demo_coaches ! i) \<and>
         (coach_no (demo_coaches ! i) = ''C100'' \<longrightarrow> current_shop (rows ct' ! i) = ''Shop D'') \<and>
         (coach_no (demo_coaches ! i) \<noteq> ''C100'' \<longrightarrow> rows ct' ! i = demo_coaches ! i)))"
proof -
  have h: "''Shop D'' \<noteq> []" "''Shop B'' \<noteq> []" by simp_all
  from record_movement_frame [OF h demo_tables, of demo_now1 demo_now2 "''C100''" "''Axle swap''"]
    h demo_tables
  show ?thesis by simp
qed

subsection \<open>The report filter\<close>

text \<open>
  Claim C6. On a table whose \<open>date_in\<close> texts are the ISO forms of the dates the coaches
  were entered with (which is what \<open>add_coach\<close> stores), \<open>filter_coaches\<close> returns, in
  table order, exactly the coaches entered between the start and the end date, both
  included, and of the given type unless the type filter is \<^verbatim>\<open>All\<close>.
\<close>

theorem filter_coaches_range_and_type:
  assumes "valid_date sd" and "valid_date ed" and "coaches s = Some t"
    and "\<forall>c \<in> set (rows t). valid_date (entered c) \<and> date_in c = str_date (entered c)"
  shows "filter_coaches sd ed tf s =
     Inr (filter (\<lambda>c. date_le sd (entered c) \<and> date_le (entered c) ed \<and>
                       (tf \<noteq> ''All'' \<longrightarrow> coach_type c = tf)) (rows t))"
proof -
  have between: "str_date sd \<le> date_in c \<and> date_in c \<le> str_date ed \<longleftrightarrow>
      date_le sd (entered c) \<and> date_le (entered c) ed" if "c \<in> set (rows t)" for c
  proof -
    from assms(4) that have v: "valid_date (entered c)" and d: "date_in c = str_date (entered c)"
      by blast+
    show ?thesis
      unfolding d
      by (simp only: str_date_le_iff [OF assms(1) v] str_date_le_iff [OF v assms(2)])
  qed
  show ?thesis
  proof (cases "tf = ''All''")
    case True
    have "filter_coaches sd ed tf s =
        Inr (filter (\<lambda>c. str_date sd \<le> date_in c \<and> date_in c \<le> str_date ed) (rows t))"
      using assms(3) True by (simp add: filter_coaches_def)
    also have "filter (\<lambda>c. str_date sd \<le> date_in c \<and> date_in c \<le> str_date ed) (rows t) =
        filter (\<lambda>c. date_le sd (entered c) \<and> date_le (entered c) ed \<and>
                     (tf \<noteq> ''All'' \<longrightarrow> coach_type c = tf)) (rows t)"
      using between True by (intro filter_cong) simp_all
    finally show ?thesis .
  next
    case False
    have "filter_coaches sd ed tf s =
        Inr (filter (\<lambda>c. (str_date sd \<le> date_in c \<and> date_in c \<le> str_date ed) \<and>
                          coach_type c = tf) (rows t))"
      using assms(3) False by (simp add: filter_coaches_def)
    also have "filter (\<lambda>c. (str_date sd \<le> date_in c \<and> date_in c \<le> str_date ed) \<and>
                          coach_type c = tf) (rows t) =
        filter (\<lambda>c. date_le sd (entered c) \<and> date_le (entered c) ed \<and>
                     (tf \<noteq> ''All'' \<longrightarrow> coach_type c = tf)) (rows t)"
      using between False by (intro filter_cong) simp_all
    finally show ?thesis .
  qed
qed

theorem filter_coaches_range_and_type_witness:
  "valid_date demo_start \<and> valid_date demo_end \<and>
   coaches demo_db = Some \<lparr>rows = demo_coaches, sqlite_sequence = 3\<rparr> \<and>
   list_all (\<lambda>c. valid_date (demo_entered c) \<and> date_in c = str_date (demo_entered c))
     demo_coaches \<and>
   filter_coaches demo_start demo_end ''Sleeper'' demo_db =
     Inr [\<lparr>coach_id = 2, coach_no = ''C200'', coach_type = ''Sleeper'',
           date_in = ''2025-03-05'', current_shop = ''Shop A''\<rparr>] \<and>
   filter_coaches demo_start demo_end ''All'' demo_db =
     Inr [\<lparr>coach_id = 1, coach_no = ''C100'', coach_type = ''AC'',
           date_in = ''2025-01-10'', current_shop = ''Shop B''\<rparr>,
          \<lparr>coach_id = 2, coach_no = ''C200'', coach_type = ''Sleeper'',
           date_in = ''2025-03-05'', current_shop = ''Shop A''\<rparr>]"
proof -
  have e: "\<forall>c \<in> set (rows \<lparr>rows = demo_coaches, sqlite_sequence = 3\<rparr>).
      valid_date (demo_entered c) \<and> date_in c = str_date (demo_entered c)"
    using demo_entered_ok by simp
  note w = filter_coaches_range_and_type [OF demo_dates_valid demo_tables(1) e]
  have a: "filter_coaches demo_start demo_end ''Sleeper'' demo_db =
     Inr [\<lparr>coach_id = 2, coach_no = ''C200'', coach_type = ''Sleeper'',
           date_in = ''2025-03-05'', current_shop = ''Shop A''\<rparr>]"
    unfolding w [of "''Sleeper''"]
    by (simp add: demo_coaches_def demo_entered_def demo_start_def demo_end_def date_le_def)
  have b: "filter_coaches demo_start demo_end ''All'' demo_db =
     Inr [\<lparr>coach_id = 1, coach_no = ''C100'', coach_type = ''AC'',
           date_in = ''2025-01-10'', current_shop = ''Shop B''\<rparr>,
          \<lparr>coach_id = 2, coach_no = ''C200'', coach_type = ''Sleeper'',
           date_in = ''2025-03-05'', current_shop = ''Shop A''\<rparr>]"
    unfolding w [of "''All''"]
    by (simp add: demo_coaches_def demo_entered_def demo_start_def demo_end_def date_le_def)
  have l: "list_all (\<lambda>c. valid_date (demo_entered c) \<and> date_in c = str_date (demo_entered c))
      demo_coaches"
    using demo_entered_ok by (simp only: list_all_iff)
  from demo_dates_valid demo_tables(1) l a b show ?thesis by blast
qed

subsection \<open>The CSV export and its reader\<close>


























subsection \<open>Movement rows are never changed or removed\<close>

text \<open>
  Claim C9. On a database with both tables, every operation succeeds and leaves every
  movement row that existed before in place and unchanged: the movement rows afterwards
  are the rows before followed by new ones, and every operation other than
  \<open>record_movement\<close> leaves the whole movements table as it was.
\<close>

theorem movements_only_grow:
  assumes "coaches s = Some ct" and "movements s = Some mt"
  shows "\<exists>out s' mt' new.
      perform to_excel op s = Inr (out, s') \<and>
      movements s' = Some mt' \<and> rows mt' = rows mt @ new \<and>
      (\<not> is_record_movement op \<longrightarrow> mt' = mt \<and> new = [])"
proof (cases op)
  case EnsureSchema
  with assms show ?thesis
    by (simp add: ensure_schema_def create_table_if_not_exists_def)
next
  case (AddCoach cn ct' d sh)
  with assms show ?thesis
    by (simp add: writing_def add_coach_def)
next
  case (RecordMovement now1 now2 cn so si wd)
  show ?thesis
  proof (cases "si \<noteq> [] \<and> so \<noteq> []")
    case True
    then have "perform to_excel op s =
        Inr (Shown (Success (check_mark @ '' Movement updated for Coach '' @ cn)),
             s\<lparr>movements := Some (insert_movement cn si so wd (strftime now1) (strftime now2) mt),
               coaches := Some (ct\<lparr>rows := update_current_shop si cn (rows ct)\<rparr>)\<rparr>)"
      using assms RecordMovement by (simp add: writing_def record_movement_run)
    moreover have "rows (insert_movement cn si so wd (strftime now1) (strftime now2) mt) =
        rows mt @ [\<lparr>movement_id = next_rowid (map movement_id (rows mt)) (sqlite_sequence mt),
          movement_coach_no = cn, shop_in = si, shop_out = so, work_done = wd,
          time_in = strftime now1, time_out = strftime now2\<rparr>]"
      by (simp add: insert_movement_def Let_def)
    ultimately show ?thesis using RecordMovement by simp
  next
    case False
    then have "perform to_excel op s = Inr (Shown (Warning ''Please fill in both shop fields.''), s)"
      using RecordMovement by (auto simp: writing_def record_movement_def)
    with assms show ?thesis by simp
  qed
next
  case ListCoaches
  with assms show ?thesis by (simp add: reading_def list_coaches_def)
next
  case ListCoachNumbers
  with assms show ?thesis by (simp add: reading_def list_coach_numbers_def)
next
  case (GetMovementsFor cn)
  with assms show ?thesis by (simp add: reading_def get_movements_for_def)
next
  case (FilterCoaches sd ed tf)
  with assms show ?thesis by (simp add: reading_def filter_coaches_def Let_def)
next
  case (ExportCsv sd ed tf)
  with assms show ?thesis by (simp add: reading_def download_csv_def filter_coaches_def Let_def)
next
  case (ExportSpreadsheet sd ed tf)
  with assms show ?thesis by (simp add: reading_def download_excel_def filter_coaches_def Let_def)
qed

theorem movements_only_grow_witness:
  "coaches demo_db = Some \<lparr>rows = demo_coaches, sqlite_sequence = 3\<rparr> \<and>
   movements demo_db = Some \<lparr>rows = demo_movements, sqlite_sequence = 1\<rparr> \<and>
   (\<exists>out s' mt' new.
      perform demo_xlsx
        (RecordMovement demo_now1 demo_now2 ''C200'' ''Shop A'' ''Shop D'' ''Brake test'') demo_db =
        Inr (out, s') \<and>
      movements s' = Some mt' \<and> rows mt' = demo_movements @ new) \<and>
   (\<exists>out s'.
      perform demo_xlsx (GetMovementsFor ''C100'') demo_db = Inr (out, s') \<and>
      movements s' = Some \<lparr>rows = demo_movements, sqlite_sequence = 1\<rparr>)"
proof -
  note a = movements_only_grow [OF demo_tables, of demo_xlsx
      "RecordMovement demo_now1 demo_now2 ''C200'' ''Shop A'' ''Shop D'' ''Brake test''"]
  note b = movements_only_grow [OF demo_tables, of demo_xlsx "GetMovementsFor ''C100''"]
  have a': "\<exists>out s' mt' new.
      perform demo_xlsx
        (RecordMovement demo_now1 demo_now2 ''C200'' ''Shop A'' ''Shop D'' ''Brake test'') demo_db =
        Inr (out, s') \<and>
      movements s' = Some mt' \<and> rows mt' = demo_movements @ new"
    using a by auto
  have b': "\<exists>out s'.
      perform demo_xlsx (GetMovementsFor ''C100'') demo_db = Inr (out, s') \<and>
      movements s' = Some \<lparr>rows = demo_movements, sqlite_sequence = 1\<rparr>"
    using b by auto
  from demo_tables a' b' show ?thesis by blast
qed

end
